theory Spec2Isabelle
  imports Main "HOL-Library.Multiset"
begin

section \<open>Documents of the store\<close>

text \<open>
  The three Mongoose models (models/user.js, models/skill.js, models/swapRequest.js). Every
  document has an \<open>_id\<close> (here \<open>oid\<close>) and, by \<open>timestamps: true\<close>, the dates
  \<open>createdAt\<close> and \<open>updatedAt\<close>. An ObjectId is a number and a date is a number of
  ticks; the time of a call is a parameter \<open>now\<close> of the handler. A reference field holds
  an id in the stored document and the referenced document, or nothing when the id does
  not resolve, after \<open>populate\<close>: the record types take the type of the reference as a
  parameter. A collection is the list of its documents in insertion order.
\<close>

type_synonym oid = nat
type_synonym date = nat

record Doc =
  oid :: oid
  createdAt :: date
  updatedAt :: date

record User = Doc +
  username :: string
  hashedPassword :: string
  name :: "string option"
  location :: "string option"
  bio :: "string option"
  skillsOffered :: "oid list"
  skillsWanted :: "oid list"

record UserSummary =
  summary_id :: oid
  summary_username :: string
  summary_name :: "string option"
  summary_location :: "string option"

record 'u Skill = Doc +
  user :: 'u
  skillName :: string
  category :: string
  skillLevel :: string
  timeFrame :: "string option"
  description :: "string option"
  skillType :: string
  isActive :: bool

datatype Status = Pending | Accepted | Declined | InProgress | Completed

record ('u, 's) SwapRequest = Doc +
  requester :: 'u
  skillProvider :: 'u
  skillRequested :: 's
  skillOffered :: 's
  status :: Status
  comments :: "string option"
  requestMessage :: "string option"
  responseMessage :: "string option"

record DB =
  users :: "User list"
  skills :: "oid Skill list"
  swapRequests :: "(oid, oid) SwapRequest list"

text \<open>
  \<open>findById\<close> gives the document with the id, if there is one. \<open>findByIdAndUpdate\<close>
  applies the update to that document and stamps \<open>updatedAt\<close>; with no such document
  it changes nothing. \<open>newObjectId\<close> is the id the store gives a created document: one
  that no document of the collection has. \<open>sort({ createdAt: -1 })\<close> is a stable sort,
  newest first.
\<close>

definition findById :: "oid \<Rightarrow> 'a Doc_scheme list \<Rightarrow> 'a Doc_scheme option" where
  "findById i ds = find (\<lambda>d. oid d = i) ds"

fun findByIdAndUpdate ::
  "oid \<Rightarrow> ('a Doc_scheme \<Rightarrow> 'a Doc_scheme) \<Rightarrow> date \<Rightarrow> 'a Doc_scheme list \<Rightarrow> 'a Doc_scheme list" where
  "findByIdAndUpdate i f now [] = []"
| "findByIdAndUpdate i f now (d # ds) =
     (if oid d = i then (f d)\<lparr>updatedAt := now\<rparr> # ds else d # findByIdAndUpdate i f now ds)"

definition newObjectId :: "'a Doc_scheme list \<Rightarrow> oid" where
  "newObjectId ds = Suc (fold max (map oid ds) 0)"

definition sortNewestFirst :: "'a Doc_scheme list \<Rightarrow> 'a Doc_scheme list" where
  "sortNewestFirst ds = sort_key (\<lambda>d. - int (createdAt d)) ds"

definition summary :: "User \<Rightarrow> UserSummary" where
  "summary u = \<lparr>summary_id = oid u, summary_username = username u,
                summary_name = name u, summary_location = location u\<rparr>"

definition populateUser :: "DB \<Rightarrow> oid \<Rightarrow> UserSummary option" where
  "populateUser db i = map_option summary (findById i (users db))"

type_synonym ResolvedRequest = "(UserSummary option, oid Skill option) SwapRequest"

definition populate :: "DB \<Rightarrow> (oid, oid) SwapRequest \<Rightarrow> ResolvedRequest" where
  "populate db r =
     \<lparr>oid = oid r, createdAt = createdAt r, updatedAt = updatedAt r,
      requester = populateUser db (requester r),
      skillProvider = populateUser db (skillProvider r),
      skillRequested = findById (skillRequested r) (skills db),
      skillOffered = findById (skillOffered r) (skills db),
      status = status r, comments = comments r,
      requestMessage = requestMessage r, responseMessage = responseMessage r\<rparr>"

type_synonym ResolvedSkill = "UserSummary option Skill"

definition populateSkill :: "DB \<Rightarrow> oid Skill \<Rightarrow> ResolvedSkill" where
  "populateSkill db s =
     \<lparr>oid = oid s, createdAt = createdAt s, updatedAt = updatedAt s,
      user = populateUser db (user s),
      skillName = skillName s, category = category s, skillLevel = skillLevel s,
      timeFrame = timeFrame s, description = description s,
      skillType = skillType s, isActive = isActive s\<rparr>"

section \<open>HTTP replies\<close>

text \<open>
  A handler answers with a status code and a JSON body (\<open>res.status(c).json(b)\<close>;
  \<open>res.json(b)\<close> is status 200). \<open>Thrown\<close> is the \<open>catch\<close> branch of a handler:
  status 500 with the message of the exception. The store calls themselves are total
  here: ids are well-formed ObjectIds and the connection does not fail.
\<close>

datatype body =
    Err string
  | Request "ResolvedRequest option"
  | Requests "ResolvedRequest list"
  | Skills "ResolvedSkill list"
  | MySkills "oid Skill list"
  | SearchResults "ResolvedSkill list" "ResolvedSkill list" nat
  | SkillDoc "ResolvedSkill option"
  | Message string

datatype reply = Reply nat body | Thrown

section \<open>controllers/swapRequests.js\<close>

subsection \<open>GET /, GET /received, GET /sent\<close>

definition listAll :: "oid \<Rightarrow> DB \<Rightarrow> reply \<times> DB" where
  "listAll caller db =
     (Reply 200 (Requests (map (populate db) (sortNewestFirst
        (filter (\<lambda>r. requester r = caller \<or> skillProvider r = caller) (swapRequests db))))), db)"

definition listReceived :: "oid \<Rightarrow> DB \<Rightarrow> reply \<times> DB" where
  "listReceived caller db =
     (Reply 200 (Requests (map (populate db) (sortNewestFirst
        (filter (\<lambda>r. skillProvider r = caller) (swapRequests db))))), db)"

definition listSent :: "oid \<Rightarrow> DB \<Rightarrow> reply \<times> DB" where
  "listSent caller db =
     (Reply 200 (Requests (map (populate db) (sortNewestFirst
        (filter (\<lambda>r. requester r = caller) (swapRequests db))))), db)"

subsection \<open>POST /\<close>

definition create ::
  "oid \<Rightarrow> oid \<Rightarrow> oid \<Rightarrow> string option \<Rightarrow> string option \<Rightarrow> date \<Rightarrow> DB \<Rightarrow> reply \<times> DB" where
  "create caller skillRequestedId skillOfferedId comments' requestMessage' now db =
     (case findById skillRequestedId (skills db) of
        None \<Rightarrow> (Reply 404 (Err ''One or both skills not found.''), db)
      | Some skillRequested' \<Rightarrow>
     (case findById skillOfferedId (skills db) of
        None \<Rightarrow> (Reply 404 (Err ''One or both skills not found.''), db)
      | Some skillOffered' \<Rightarrow>
          if user skillRequested' = caller
          then (Reply 400 (Err ''Cannot create swap request with yourself.''), db)
          else if user skillOffered' \<noteq> caller
          then (Reply 403 (Err ''You can only offer skills you own.''), db)
          else
            let swapRequest =
                  \<lparr>oid = newObjectId (swapRequests db), createdAt = now, updatedAt = now,
                   requester = caller,
                   skillProvider = user skillRequested',
                   skillRequested = skillRequestedId,
                   skillOffered = skillOfferedId,
                   status = Pending,
                   comments = comments',
                   requestMessage = requestMessage',
                   responseMessage = None\<rparr>;
                db' = db\<lparr>swapRequests := swapRequests db @ [swapRequest]\<rparr>
            in (Reply 201 (Request (map_option (populate db')
                   (findById (oid swapRequest) (swapRequests db')))), db')))"

subsection \<open>PUT /:requestId/accept and PUT /:requestId/decline\<close>

text \<open>
  Each handler makes two store calls, each behind an \<open>await\<close>: \<open>findById\<close>, whose
  result the three guards inspect, and \<open>findByIdAndUpdate\<close>, which writes by id alone.
  The guards give the early reply, or \<open>None\<close> when the handler goes on to the update.
  A \<open>responseMessage\<close> the body does not carry is \<open>undefined\<close>, and the update leaves
  the stored field as it is.
\<close>

definition setResponse :: "Status \<Rightarrow> string option \<Rightarrow> (oid, oid) SwapRequest \<Rightarrow> (oid, oid) SwapRequest" where
  "setResponse st responseMessage' r =
     (case responseMessage' of
        None \<Rightarrow> r\<lparr>status := st\<rparr>
      | Some m \<Rightarrow> r\<lparr>status := st, responseMessage := Some m\<rparr>)"

definition resolved :: "oid \<Rightarrow> DB \<Rightarrow> reply" where
  "resolved requestId db =
     Reply 200 (Request (map_option (populate db) (findById requestId (swapRequests db))))"

definition acceptGuards :: "oid \<Rightarrow> oid \<Rightarrow> DB \<Rightarrow> reply option" where
  "acceptGuards caller requestId db =
     (case findById requestId (swapRequests db) of
        None \<Rightarrow> Some (Reply 404 (Err ''Swap request not found.''))
      | Some swapRequest \<Rightarrow>
          if skillProvider swapRequest \<noteq> caller
          then Some (Reply 403 (Err ''You can only accept requests sent to you.''))
          else if status swapRequest \<noteq> Pending
          then Some (Reply 400 (Err ''This request has already been answered.''))
          else None)"

definition acceptUpdate :: "oid \<Rightarrow> string option \<Rightarrow> date \<Rightarrow> DB \<Rightarrow> reply \<times> DB" where
  "acceptUpdate requestId responseMessage' now db =
     (let db' = db\<lparr>swapRequests :=
                  findByIdAndUpdate requestId (setResponse Accepted responseMessage') now (swapRequests db)\<rparr>
      in (resolved requestId db', db'))"

definition accept :: "oid \<Rightarrow> oid \<Rightarrow> string option \<Rightarrow> date \<Rightarrow> DB \<Rightarrow> reply \<times> DB" where
  "accept caller requestId responseMessage' now db =
     (case acceptGuards caller requestId db of
        Some early \<Rightarrow> (early, db)
      | None \<Rightarrow> acceptUpdate requestId responseMessage' now db)"

definition declineGuards :: "oid \<Rightarrow> oid \<Rightarrow> DB \<Rightarrow> reply option" where
  "declineGuards caller requestId db =
     (case findById requestId (swapRequests db) of
        None \<Rightarrow> Some (Reply 404 (Err ''Swap request not found.''))
      | Some swapRequest \<Rightarrow>
          if skillProvider swapRequest \<noteq> caller
          then Some (Reply 403 (Err ''You can only decline requests sent to you.''))
          else if status swapRequest \<noteq> Pending
          then Some (Reply 400 (Err ''This request has already been answered.''))
          else None)"

definition declineUpdate :: "oid \<Rightarrow> string option \<Rightarrow> date \<Rightarrow> DB \<Rightarrow> reply \<times> DB" where
  "declineUpdate requestId responseMessage' now db =
     (let db' = db\<lparr>swapRequests :=
                  findByIdAndUpdate requestId (setResponse Declined responseMessage') now (swapRequests db)\<rparr>
      in (resolved requestId db', db'))"

definition decline :: "oid \<Rightarrow> oid \<Rightarrow> string option \<Rightarrow> date \<Rightarrow> DB \<Rightarrow> reply \<times> DB" where
  "decline caller requestId responseMessage' now db =
     (case declineGuards caller requestId db of
        Some early \<Rightarrow> (early, db)
      | None \<Rightarrow> declineUpdate requestId responseMessage' now db)"

subsection \<open>PUT /:requestId/status\<close>

text \<open>
  The body's \<open>status\<close> is any string; only the two of \<open>validStatuses\<close> pass the
  \<open>includes\<close> test, and the update stores the one that passed.
\<close>

definition validStatuses :: "string list" where
  "validStatuses = [''in-progress'', ''completed'']"

definition statusOfString :: "string \<Rightarrow> Status" where
  "statusOfString s = (if s = ''in-progress'' then InProgress else Completed)"

definition updateStatus :: "oid \<Rightarrow> oid \<Rightarrow> string \<Rightarrow> date \<Rightarrow> DB \<Rightarrow> reply \<times> DB" where
  \<open>updateStatus caller requestId status' now db =
     (case findById requestId (swapRequests db) of
        None \<Rightarrow> (Reply 404 (Err ''Swap request not found.''), db)
      | Some swapRequest \<Rightarrow>
          if requester swapRequest \<noteq> caller \<and> skillProvider swapRequest \<noteq> caller
          then (Reply 403 (Err ''You can only update swaps you're part of.''), db)
          else if status' \<notin> set validStatuses
          then (Reply 400 (Err ''Invalid status. Use "in-progress" or "completed".''), db)
          else if status swapRequest \<noteq> Accepted \<and> status' = ''in-progress''
          then (Reply 400 (Err ''Can't start until both people have agreed to the swap.''), db)
          else
            let db' = db\<lparr>swapRequests :=
                        findByIdAndUpdate requestId (\<lambda>r. r\<lparr>status := statusOfString status'\<rparr>) now
                          (swapRequests db)\<rparr>
            in (resolved requestId db', db'))\<close>

subsection \<open>Two accept or decline calls in flight\<close>

text \<open>
  A handler yields at each \<open>await\<close>, so between its \<open>findById\<close> and its
  \<open>findByIdAndUpdate\<close> the store can serve another handler. A call in flight is at one
  of three points: not yet started, past its guards and waiting for its update, or
  finished with a reply. \<open>interleave\<close> runs two calls under a schedule that names,
  at each turn, the call whose next store call is served.
\<close>

datatype decision = Accept | Decline

record Call =
  callCaller :: oid
  callDecision :: decision
  callRequestId :: oid
  callMessage :: "string option"
  callTime :: date

datatype progress = NotStarted | AwaitingUpdate | Finished reply

fun respondStep :: "Call \<Rightarrow> progress \<Rightarrow> DB \<Rightarrow> progress \<times> DB" where
  "respondStep c NotStarted db =
     (case (case callDecision c of
              Accept \<Rightarrow> acceptGuards (callCaller c) (callRequestId c) db
            | Decline \<Rightarrow> declineGuards (callCaller c) (callRequestId c) db) of
        Some early \<Rightarrow> (Finished early, db)
      | None \<Rightarrow> (AwaitingUpdate, db))"
| "respondStep c AwaitingUpdate db =
     (case (case callDecision c of
              Accept \<Rightarrow> acceptUpdate (callRequestId c) (callMessage c) (callTime c) db
            | Decline \<Rightarrow> declineUpdate (callRequestId c) (callMessage c) (callTime c) db) of
        (r, db') \<Rightarrow> (Finished r, db'))"
| "respondStep c (Finished r) db = (Finished r, db)"

datatype turn = First | Second

fun interleave ::
  "Call \<Rightarrow> Call \<Rightarrow> turn list \<Rightarrow> progress \<times> progress \<times> DB \<Rightarrow> progress \<times> progress \<times> DB" where
  "interleave a b [] st = st"
| "interleave a b (First # ts) (pa, pb, db) =
     (case respondStep a pa db of (pa', db') \<Rightarrow> interleave a b ts (pa', pb, db'))"
| "interleave a b (Second # ts) (pa, pb, db) =
     (case respondStep b pb db of (pb', db') \<Rightarrow> interleave a b ts (pa, pb', db'))"

section \<open>controllers/skills.js\<close>

text \<open>
  A query parameter is absent or a string; \<open>if (search)\<close> holds for a string that is
  not empty, and a filter whose parameter is absent or empty lets every document pass. The test
  \<open>{ $regex: p, $options: 'i' }\<close> belongs to the store: it is the parameter \<open>rx\<close>,
  applied to the pattern, taken to be a well-formed regular expression, and the field, and
  a document without the field does not match. \<open>toLowerCase\<close> is modelled on the ASCII letters. The location
  filter reads \<open>skill.user.location\<close>: on a skill whose user did not resolve this read
  throws, and the handler's \<open>catch\<close> answers; \<open>filterByLocation\<close> is then \<open>None\<close>.
\<close>

definition toLowerCase :: "string \<Rightarrow> string" where
  "toLowerCase s =
     map (\<lambda>c. if 65 \<le> (of_char c :: nat) \<and> (of_char c :: nat) \<le> 90
              then char_of ((of_char c :: nat) + 32) else c) s"

fun startsWith :: "string \<Rightarrow> string \<Rightarrow> bool" where
  "startsWith s [] = True"
| "startsWith [] (y # ys) = False"
| "startsWith (x # xs) (y # ys) = (x = y \<and> startsWith xs ys)"

fun includesStr :: "string \<Rightarrow> string \<Rightarrow> bool" where
  "includesStr [] t = (t = [])"
| "includesStr (x # xs) t = (startsWith (x # xs) t \<or> includesStr xs t)"

definition matchesText :: "(string \<Rightarrow> string \<Rightarrow> bool) \<Rightarrow> string option \<Rightarrow> 'u Skill \<Rightarrow> bool" where
  "matchesText rx q s =
     (case q of
        None \<Rightarrow> True
      | Some p \<Rightarrow>
          if p = [] then True
          else rx p (skillName s) \<or>
               (case description s of None \<Rightarrow> False | Some d \<Rightarrow> rx p d))"

definition matchesField :: "string option \<Rightarrow> string \<Rightarrow> bool" where
  "matchesField q v = (case q of None \<Rightarrow> True | Some p \<Rightarrow> if p = [] then True else v = p)"

definition matchesOptField :: "string option \<Rightarrow> string option \<Rightarrow> bool" where
  "matchesOptField q v = (case q of None \<Rightarrow> True | Some p \<Rightarrow> if p = [] then True else v = Some p)"

definition livesIn :: "string \<Rightarrow> ResolvedSkill \<Rightarrow> bool option" where
  "livesIn loc s =
     (case user s of
        None \<Rightarrow> None
      | Some u \<Rightarrow>
          Some (case summary_location u of
                  None \<Rightarrow> False
                | Some l \<Rightarrow> l \<noteq> [] \<and> includesStr (toLowerCase l) (toLowerCase loc)))"

fun filterByLocation :: "string \<Rightarrow> ResolvedSkill list \<Rightarrow> ResolvedSkill list option" where
  "filterByLocation loc [] = Some []"
| "filterByLocation loc (s # ss) =
     (case livesIn loc s of
        None \<Rightarrow> None
      | Some keep \<Rightarrow>
          (case filterByLocation loc ss of
             None \<Rightarrow> None
           | Some rest \<Rightarrow> Some (if keep then s # rest else rest)))"

definition whereLocation :: "string option \<Rightarrow> ResolvedSkill list \<Rightarrow> ResolvedSkill list option" where
  "whereLocation q found =
     (case q of
        None \<Rightarrow> Some found
      | Some loc \<Rightarrow> if loc = [] then Some found else filterByLocation loc found)"

record BrowseQuery =
  qSearch :: "string option"
  qCategory :: "string option"
  qSkillLevel :: "string option"
  qType :: "string option"
  qLocation :: "string option"
  qTimeFrame :: "string option"

subsection \<open>GET /\<close>

definition browse :: "(string \<Rightarrow> string \<Rightarrow> bool) \<Rightarrow> BrowseQuery \<Rightarrow> DB \<Rightarrow> reply \<times> DB" where
  "browse rx q db =
     (let found = map (populateSkill db) (sortNewestFirst
            (filter (\<lambda>s. isActive s \<and> matchesText rx (qSearch q) s \<and>
                         matchesField (qCategory q) (category s) \<and>
                         matchesField (qSkillLevel q) (skillLevel s) \<and>
                         matchesField (qType q) (skillType s)) (skills db)))
      in case whereLocation (qLocation q) found of
           None \<Rightarrow> (Thrown, db)
         | Some kept \<Rightarrow> (Reply 200 (Skills kept), db))"

subsection \<open>GET /my-skills\<close>

definition mySkills :: "oid \<Rightarrow> DB \<Rightarrow> reply \<times> DB" where
  "mySkills caller db =
     (Reply 200 (MySkills (sortNewestFirst
        (filter (\<lambda>s. user s = caller \<and> isActive s) (skills db)))), db)"

subsection \<open>PUT /:skillId\<close>

text \<open>
  The handler hands \<open>req.body\<close> to \<open>findByIdAndUpdate\<close> as it came: every path of
  the schema that the body carries is written, \<open>user\<close> among them, and a path it does
  not carry is left as it is. The body is the record of the paths it carries.
\<close>

record SkillBody =
  bodyUser :: "oid option"
  bodySkillName :: "string option"
  bodyCategory :: "string option"
  bodySkillLevel :: "string option"
  bodyTimeFrame :: "string option"
  bodyDescription :: "string option"
  bodyType :: "string option"
  bodyIsActive :: "bool option"

definition applyBody :: "SkillBody \<Rightarrow> oid Skill \<Rightarrow> oid Skill" where
  "applyBody b s =
     s\<lparr>user := (case bodyUser b of None \<Rightarrow> user s | Some u \<Rightarrow> u),
       skillName := (case bodySkillName b of None \<Rightarrow> skillName s | Some n \<Rightarrow> n),
       category := (case bodyCategory b of None \<Rightarrow> category s | Some c \<Rightarrow> c),
       skillLevel := (case bodySkillLevel b of None \<Rightarrow> skillLevel s | Some l \<Rightarrow> l),
       timeFrame := (case bodyTimeFrame b of None \<Rightarrow> timeFrame s | Some t \<Rightarrow> Some t),
       description := (case bodyDescription b of None \<Rightarrow> description s | Some d \<Rightarrow> Some d),
       skillType := (case bodyType b of None \<Rightarrow> skillType s | Some t \<Rightarrow> t),
       isActive := (case bodyIsActive b of None \<Rightarrow> isActive s | Some a \<Rightarrow> a)\<rparr>"

definition updateSkill :: "oid \<Rightarrow> oid \<Rightarrow> SkillBody \<Rightarrow> date \<Rightarrow> DB \<Rightarrow> reply \<times> DB" where
  "updateSkill caller skillId b now db =
     (case findById skillId (skills db) of
        None \<Rightarrow> (Reply 404 (Err ''Skill not found.''), db)
      | Some skill \<Rightarrow>
          if user skill \<noteq> caller
          then (Reply 403 (Err ''You can only edit your own skills.''), db)
          else
            let db' = db\<lparr>skills := findByIdAndUpdate skillId (applyBody b) now (skills db)\<rparr>
            in (Reply 200 (SkillDoc (map_option (populateSkill db') (findById skillId (skills db')))),
                db'))"

subsection \<open>DELETE /:skillId\<close>

definition deleteSkill :: "oid \<Rightarrow> oid \<Rightarrow> date \<Rightarrow> DB \<Rightarrow> reply \<times> DB" where
  "deleteSkill caller skillId now db =
     (case findById skillId (skills db) of
        None \<Rightarrow> (Reply 404 (Err ''Skill not found.''), db)
      | Some skill \<Rightarrow>
          if user skill \<noteq> caller
          then (Reply 403 (Err ''You can only delete your own skills.''), db)
          else (Reply 200 (Message ''Skill deleted successfully.''),
                db\<lparr>skills := findByIdAndUpdate skillId (\<lambda>s. s\<lparr>isActive := False\<rparr>) now (skills db)\<rparr>))"

subsection \<open>GET /search\<close>

definition search :: "(string \<Rightarrow> string \<Rightarrow> bool) \<Rightarrow> BrowseQuery \<Rightarrow> DB \<Rightarrow> reply \<times> DB" where
  "search rx q db =
     (let found = map (populateSkill db) (sortNewestFirst
            (filter (\<lambda>s. isActive s \<and> matchesText rx (qSearch q) s \<and>
                         matchesField (qCategory q) (category s) \<and>
                         matchesField (qSkillLevel q) (skillLevel s) \<and>
                         matchesField (qType q) (skillType s) \<and>
                         matchesOptField (qTimeFrame q) (timeFrame s)) (skills db)))
      in case whereLocation (qLocation q) found of
           None \<Rightarrow> (Thrown, db)
         | Some kept \<Rightarrow>
             (Reply 200 (SearchResults (filter (\<lambda>s. skillType s = ''offered'') kept)
                                       (filter (\<lambda>s. skillType s = ''wanted'') kept)
                                       (length kept)), db))"

section \<open>Notions the properties are stated with\<close>

text \<open>A reply is a success when its status code is 2xx.\<close>

definition ok :: "reply \<Rightarrow> bool" where
  "ok r = (case r of Reply c b \<Rightarrow> 200 \<le> c \<and> c < 300 | Thrown \<Rightarrow> False)"

definition statusCode :: "reply \<Rightarrow> nat" where
  "statusCode r = (case r of Reply c b \<Rightarrow> c | Thrown \<Rightarrow> 500)"

text \<open>
  The specification's \<open>respond(caller, id, decision)\<close> is the pair of handlers accept
  and decline; \<open>decided\<close> is the status each of them writes and \<open>notYours\<close> the
  message of its 403 reply.
\<close>

definition respond :: "decision \<Rightarrow> oid \<Rightarrow> oid \<Rightarrow> string option \<Rightarrow> date \<Rightarrow> DB \<Rightarrow> reply \<times> DB" where
  "respond d caller requestId m now db =
     (case d of Accept \<Rightarrow> accept caller requestId m now db
              | Decline \<Rightarrow> decline caller requestId m now db)"

definition decided :: "decision \<Rightarrow> Status" where
  "decided d = (case d of Accept \<Rightarrow> Accepted | Decline \<Rightarrow> Declined)"

definition notYours :: "decision \<Rightarrow> string" where
  "notYours d = (case d of Accept \<Rightarrow> ''You can only accept requests sent to you.''
                         | Decline \<Rightarrow> ''You can only decline requests sent to you.'')"

text \<open>A call in flight, served by its handler in one go.\<close>

definition serve :: "Call \<Rightarrow> DB \<Rightarrow> reply \<times> DB" where
  "serve c db =
     respond (callDecision c) (callCaller c) (callRequestId c) (callMessage c) (callTime c) db"

text \<open>The status of the request a reply carries.\<close>

definition repliedStatus :: "reply \<Rightarrow> Status option" where
  "repliedStatus r = (case r of Reply c (Request (Some p)) \<Rightarrow> Some (status p) | _ \<Rightarrow> None)"

text \<open>The stored status of a request, if the id resolves.\<close>

definition statusOf :: "oid \<Rightarrow> DB \<Rightarrow> Status option" where
  "statusOf requestId db = map_option status (findById requestId (swapRequests db))"


definition ownerMatches :: "DB \<Rightarrow> (oid, oid) SwapRequest \<Rightarrow> bool" where
  "ownerMatches db r \<longleftrightarrow>
     map_option user (findById (skillRequested r) (skills db)) = Some (skillProvider r)"


text \<open>The calls that write to the store, and the store after a sequence of them.\<close>

datatype operation =
    CreateOp oid oid oid "string option" "string option" date
  | AcceptOp oid oid "string option" date
  | DeclineOp oid oid "string option" date
  | StatusOp oid oid string date
  | DeleteSkillOp oid oid date
  | UpdateSkillOp oid oid SkillBody date

fun perform :: "operation \<Rightarrow> DB \<Rightarrow> DB" where
  "perform (CreateOp caller sr so c m now) db = snd (create caller sr so c m now db)"
| "perform (AcceptOp caller i m now) db = snd (accept caller i m now db)"
| "perform (DeclineOp caller i m now) db = snd (decline caller i m now db)"
| "perform (StatusOp caller i s now) db = snd (updateStatus caller i s now db)"
| "perform (DeleteSkillOp caller i now) db = snd (deleteSkill caller i now db)"
| "perform (UpdateSkillOp caller i b now) db = snd (updateSkill caller i b now db)"


definition run :: "operation list \<Rightarrow> DB \<Rightarrow> DB" where
  "run ops db = fold perform ops db"

text \<open>The documents a list reply carries, and the ids of the skills a catalog reply shows.\<close>

definition requestsOf :: "reply \<Rightarrow> ResolvedRequest list" where
  "requestsOf r = (case r of Reply c (Requests rs) \<Rightarrow> rs | _ \<Rightarrow> [])"

definition shownSkills :: "reply \<Rightarrow> oid list" where
  "shownSkills r =
     (case r of
        Reply c (Skills ss) \<Rightarrow> map oid ss
      | Reply c (MySkills ss) \<Rightarrow> map oid ss
      | Reply c (SearchResults offered wanted n) \<Rightarrow> map oid offered @ map oid wanted
      | _ \<Rightarrow> [])"

text \<open>The ids of the skills that are stored as active.\<close>

definition activeIds :: "DB \<Rightarrow> oid set" where
  "activeIds db = oid ` {s \<in> set (skills db). isActive s}"

definition newestFirst :: "'a Doc_scheme list \<Rightarrow> bool" where
  "newestFirst ds = sorted_wrt (\<lambda>a b. createdAt b \<le> createdAt a) ds"

section \<open>An example store\<close>

text \<open>
  Three users; Alice (1) owns skills 10 and 30, Bob (2) owns skills 20 and 40; skills 30
  and 40 are soft-deleted. Bob has asked five times for skill 10 against skill 20, and the
  five requests stand at the five statuses.
\<close>

definition demoUser :: "oid \<Rightarrow> string \<Rightarrow> User" where
  "demoUser i n =
     \<lparr>oid = i, createdAt = 1, updatedAt = 1, username = n, hashedPassword = ''x'',
      name = Some n, location = Some ''Athens'', bio = None,
      skillsOffered = [], skillsWanted = []\<rparr>"

definition demoSkill :: "oid \<Rightarrow> oid \<Rightarrow> string \<Rightarrow> bool \<Rightarrow> oid Skill" where
  "demoSkill i owner n active =
     \<lparr>oid = i, createdAt = i, updatedAt = i, user = owner, skillName = n,
      category = ''Music'', skillLevel = ''Expert'', timeFrame = None, description = None,
      skillType = ''offered'', isActive = active\<rparr>"

definition demoRequest :: "oid \<Rightarrow> Status \<Rightarrow> (oid, oid) SwapRequest" where
  "demoRequest i st =
     \<lparr>oid = i, createdAt = i, updatedAt = i, requester = 2, skillProvider = 1,
      skillRequested = 10, skillOffered = 20, status = st, comments = None,
      requestMessage = Some ''hello'', responseMessage = None\<rparr>"


definition demoDB :: DB where
  "demoDB =
     \<lparr>users = [demoUser 1 ''alice'', demoUser 2 ''bob'', demoUser 3 ''carol''],
      skills = [demoSkill 10 1 ''Guitar'' True, demoSkill 20 2 ''Spanish'' True,
                demoSkill 30 1 ''Pottery'' False, demoSkill 40 2 ''Chess'' False],
      swapRequests = [demoRequest 100 Pending, demoRequest 101 Accepted,
                      demoRequest 102 Declined, demoRequest 103 InProgress,
                      demoRequest 104 Completed]\<rparr>"

section \<open>Facts about the store\<close>

lemma findById_Cons:
  "findById i (d # ds) = (if oid d = i then Some d else findById i ds)"
  by (simp add: findById_def)

lemma findById_Nil: "findById i [] = None"
  by (simp add: findById_def)

lemma findById_oid: "findById i ds = Some d \<Longrightarrow> oid d = i"
  by (induction ds) (auto simp: findById_Cons findById_Nil split: if_splits)

lemma findById_mem: "findById i ds = Some d \<Longrightarrow> d \<in> set ds"
  by (induction ds) (auto simp: findById_Cons findById_Nil split: if_splits)

lemma findById_update_same:
  assumes "\<And>d. oid (f d) = oid d"
  shows "findById i (findByIdAndUpdate i f now ds) =
         map_option (\<lambda>d. (f d)\<lparr>updatedAt := now\<rparr>) (findById i ds)"
  by (induction ds) (simp_all add: findById_Cons findById_Nil assms)

lemma findById_update_other:
  assumes "\<And>d. oid (f d) = oid d" and "j \<noteq> i"
  shows "findById j (findByIdAndUpdate i f now ds) = findById j ds"
  using assms(2) by (induction ds) (simp_all add: findById_Cons findById_Nil assms(1))

lemma findById_append:
  "findById i (ds @ [d]) =
     (case findById i ds of Some x \<Rightarrow> Some x | None \<Rightarrow> if oid d = i then Some d else None)"
  by (induction ds) (simp_all add: findById_Cons findById_Nil)

lemma fold_max_ge: "(a::nat) \<le> fold max xs a"
  by (induction xs arbitrary: a) (auto intro: order_trans[OF max.cobounded2])

lemma fold_max_mem: "(x::nat) \<in> set xs \<Longrightarrow> x \<le> fold max xs a"
proof (induction xs arbitrary: a)
  case Nil
  then show ?case by simp
next
  case (Cons y ys)
  show ?case
  proof (cases "x = y")
    case True
    have "y \<le> max y a" by simp
    also have "\<dots> \<le> fold max ys (max y a)" by (rule fold_max_ge)
    finally show ?thesis using True by simp
  next
    case False
    with Cons show ?thesis by simp
  qed
qed

lemma newObjectId_fresh: "findById (newObjectId ds) ds = None"
proof (cases "findById (newObjectId ds) ds")
  case None
  then show ?thesis .
next
  case (Some d)
  then have "oid d = newObjectId ds" "d \<in> set ds"
    by (auto dest: findById_oid findById_mem)
  then have "newObjectId ds \<in> set (map oid ds)" by force
  then have "newObjectId ds \<le> fold max (map oid ds) 0" by (rule fold_max_mem)
  then show ?thesis by (simp add: newObjectId_def)
qed

lemmas demo_defs =
  demoDB_def demoRequest_def demoSkill_def demoUser_def findById_Cons findById_Nil

lemma ok_Reply: "ok (Reply c b) \<longleftrightarrow> 200 \<le> c \<and> c < 300"
  by (simp add: ok_def)

lemma ok_resolved: "ok (resolved i db)"
  by (simp add: ok_Reply resolved_def)

lemma oid_setResponse: "oid (setResponse st m r) = oid r"
  by (simp add: setResponse_def split: option.splits)

lemma status_setResponse: "status (setResponse st m r) = st"
  by (simp add: setResponse_def split: option.splits)

lemma message_setResponse: "responseMessage (setResponse st (Some x) r) = Some x"
  by (simp add: setResponse_def)

section \<open>The handlers, case by case\<close>

lemma respond_cases:
  "respond d caller i m now db =
     (case findById i (swapRequests db) of
        None \<Rightarrow> (Reply 404 (Err ''Swap request not found.''), db)
      | Some r \<Rightarrow>
          if skillProvider r \<noteq> caller then (Reply 403 (Err (notYours d)), db)
          else if status r \<noteq> Pending
          then (Reply 400 (Err ''This request has already been answered.''), db)
          else (resolved i (db\<lparr>swapRequests :=
                   findByIdAndUpdate i (setResponse (decided d) m) now (swapRequests db)\<rparr>),
                db\<lparr>swapRequests :=
                   findByIdAndUpdate i (setResponse (decided d) m) now (swapRequests db)\<rparr>))"
  by (cases d)
     (simp_all add: respond_def accept_def decline_def acceptGuards_def declineGuards_def
        acceptUpdate_def declineUpdate_def decided_def notYours_def Let_def split: option.splits)

lemma accept_respond: "accept caller i m now db = respond Accept caller i m now db"
  by (simp add: respond_def)

lemma decline_respond: "decline caller i m now db = respond Decline caller i m now db"
  by (simp add: respond_def)

lemma respond_ok_iff:
  "ok (fst (respond d caller i m now db)) \<longleftrightarrow>
     (\<exists>r. findById i (swapRequests db) = Some r \<and> skillProvider r = caller \<and> status r = Pending)"
  by (auto simp: respond_cases ok_resolved ok_Reply split: option.splits)

lemma respond_after:
  assumes "ok (fst (respond d caller i m now db))"
  shows "\<exists>r. findById i (swapRequests db) = Some r \<and> skillProvider r = caller \<and> status r = Pending \<and>
          fst (respond d caller i m now db) = resolved i (snd (respond d caller i m now db)) \<and>
          findById i (swapRequests (snd (respond d caller i m now db))) =
            Some ((setResponse (decided d) m r)\<lparr>updatedAt := now\<rparr>)"
proof -
  from assms obtain r where r: "findById i (swapRequests db) = Some r" "skillProvider r = caller"
    "status r = Pending"
    unfolding respond_ok_iff by blast
  then show ?thesis
    by (simp add: respond_cases findById_update_same oid_setResponse)
qed

lemma updateStatus_cases:
  \<open>updateStatus caller i s now db =
     (case findById i (swapRequests db) of
        None \<Rightarrow> (Reply 404 (Err ''Swap request not found.''), db)
      | Some r \<Rightarrow>
          if requester r \<noteq> caller \<and> skillProvider r \<noteq> caller
          then (Reply 403 (Err ''You can only update swaps you're part of.''), db)
          else if s \<noteq> ''in-progress'' \<and> s \<noteq> ''completed''
          then (Reply 400 (Err ''Invalid status. Use "in-progress" or "completed".''), db)
          else if status r \<noteq> Accepted \<and> s = ''in-progress''
          then (Reply 400 (Err ''Can't start until both people have agreed to the swap.''), db)
          else (resolved i (db\<lparr>swapRequests :=
                   findByIdAndUpdate i (\<lambda>r. r\<lparr>status := statusOfString s\<rparr>) now (swapRequests db)\<rparr>),
                db\<lparr>swapRequests :=
                   findByIdAndUpdate i (\<lambda>r. r\<lparr>status := statusOfString s\<rparr>) now (swapRequests db)\<rparr>))\<close>
  by (simp add: updateStatus_def validStatuses_def Let_def split: option.splits)

text \<open>What each writing handler leaves in the store.\<close>

lemma create_store:
  "snd (create caller sr so c m now db) = db \<or>
   (\<exists>s. findById sr (skills db) = Some s \<and>
        snd (create caller sr so c m now db) =
          db\<lparr>swapRequests := swapRequests db @
             [\<lparr>oid = newObjectId (swapRequests db), createdAt = now, updatedAt = now,
               requester = caller, skillProvider = user s, skillRequested = sr,
               skillOffered = so, status = Pending, comments = c,
               requestMessage = m, responseMessage = None\<rparr>]\<rparr>)"
  by (simp add: create_def Let_def split: option.splits)

lemma deleteSkill_store:
  "snd (deleteSkill caller i now db) = db \<or>
   snd (deleteSkill caller i now db) =
     db\<lparr>skills := findByIdAndUpdate i (\<lambda>s. s\<lparr>isActive := False\<rparr>) now (skills db)\<rparr>"
  by (simp add: deleteSkill_def split: option.splits)

lemma updateSkill_store:
  "snd (updateSkill caller i b now db) = db \<or>
   snd (updateSkill caller i b now db) =
     db\<lparr>skills := findByIdAndUpdate i (applyBody b) now (skills db)\<rparr>"
  by (simp add: updateSkill_def Let_def split: option.splits)

lemma respond_store:
  "snd (respond d caller i m now db) = db \<or>
   (\<exists>r. findById i (swapRequests db) = Some r \<and> status r = Pending \<and>
      snd (respond d caller i m now db) =
      db\<lparr>swapRequests := findByIdAndUpdate i (setResponse (decided d) m) now (swapRequests db)\<rparr>)"
  by (simp add: respond_cases split: option.splits)

lemma updateStatus_store:
  "snd (updateStatus caller i s now db) = db \<or>
   (\<exists>r. findById i (swapRequests db) = Some r \<and> (status r = Accepted \<or> s = ''completed'') \<and>
      (s = ''in-progress'' \<or> s = ''completed'') \<and>
      snd (updateStatus caller i s now db) =
      db\<lparr>swapRequests := findByIdAndUpdate i (\<lambda>r. r\<lparr>status := statusOfString s\<rparr>) now (swapRequests db)\<rparr>)"
  by (auto simp: updateStatus_cases split: option.splits)



section \<open>The provider of a request owns the requested skill\<close>










lemma ownerMatches_requests [simp]:
  "ownerMatches (db\<lparr>swapRequests := xs\<rparr>) = ownerMatches db"
  by (rule ext) (simp add: ownerMatches_def)










section \<open>Terminal statuses\<close>

lemma perform_completed:
  assumes "statusOf j db = Some Completed"
  shows "statusOf j (perform op db) = Some Completed"
proof -
  from assms obtain r where r: "findById j (swapRequests db) = Some r" "status r = Completed"
    by (auto simp: statusOf_def)
  have resp: "statusOf j (snd (respond d caller i m now db)) = Some Completed" for d caller i m now
  proof (cases "i = j")
    case True
    then show ?thesis using r assms by (simp add: respond_cases)
  next
    case False
    then show ?thesis using respond_store [of d caller i m now db] assms
      by (auto simp: statusOf_def findById_update_other [OF oid_setResponse])
  qed
  show ?thesis
  proof (cases op)
    case (CreateOp caller sr so c m now)
    from create_store [of caller sr so c m now db] show ?thesis
      using r CreateOp by (auto simp: statusOf_def findById_append)
  next
    case (AcceptOp caller i m now)
    then show ?thesis using resp [of Accept] by (simp add: accept_respond)
  next
    case (DeclineOp caller i m now)
    then show ?thesis using resp [of Decline] by (simp add: decline_respond)
  next
    case (StatusOp caller i s now)
    show ?thesis
    proof (cases "i = j")
      case True
      then show ?thesis using r StatusOp updateStatus_store [of caller j s now db]
        by (auto simp: statusOf_def findById_update_same statusOfString_def)
    next
      case False
      then show ?thesis using r StatusOp updateStatus_store [of caller i s now db]
        by (auto simp: statusOf_def findById_update_other)
    qed
  next
    case (DeleteSkillOp caller i now)
    from deleteSkill_store [of caller i now db] show ?thesis
      using assms DeleteSkillOp by (auto simp: statusOf_def)
  next
    case (UpdateSkillOp caller i b now)
    from updateSkill_store [of caller i b now db] show ?thesis
      using assms UpdateSkillOp by (auto simp: statusOf_def)
  qed
qed

lemma run_completed:
  "statusOf j db = Some Completed \<Longrightarrow> statusOf j (run ops db) = Some Completed"
  unfolding run_def by (induction ops arbitrary: db) (simp_all add: perform_completed)

text \<open>
  C2, as the code has it. For a request whose status is \<open>declined\<close> or \<open>completed\<close>, and
  for every caller: accept and decline are rejected, the status update is rejected for
  every new status other than \<open>completed\<close> (so for \<open>in-progress\<close>), and each of these
  leaves the store as it was; a request whose status is \<open>completed\<close> has that status after
  every sequence of calls.
\<close>

theorem terminal_status_rejections:
  assumes "findById i (swapRequests db) = Some r"
      and "status r = Declined \<or> status r = Completed"
  shows "\<not> ok (fst (accept caller i m now db)) \<and> snd (accept caller i m now db) = db \<and>
         \<not> ok (fst (decline caller i m now db)) \<and> snd (decline caller i m now db) = db \<and>
         (\<forall>s. s \<noteq> ''completed'' \<longrightarrow>
            \<not> ok (fst (updateStatus caller i s now db)) \<and> snd (updateStatus caller i s now db) = db) \<and>
         (status r = Completed \<longrightarrow> (\<forall>ops. statusOf i (run ops db) = Some Completed))"
proof -
  have np: "status r \<noteq> Pending" "status r \<noteq> Accepted" using assms(2) by auto
  have a: "\<not> ok (fst (respond d caller i m now db)) \<and> snd (respond d caller i m now db) = db" for d
    using assms(1) np(1) by (simp add: respond_cases ok_Reply)
  have u: "\<not> ok (fst (updateStatus caller i s now db)) \<and> snd (updateStatus caller i s now db) = db"
    if "s \<noteq> ''completed''" for s
    using assms(1) np(2) that by (simp add: updateStatus_cases ok_Reply)
  have c: "statusOf i (run ops db) = Some Completed" if "status r = Completed" for ops
    by (rule run_completed) (simp add: statusOf_def assms(1) that)
  show ?thesis
    using a [of Accept] a [of Decline] u c by (simp add: accept_respond decline_respond)
qed

theorem terminal_status_rejections_witness:
  "\<not> ok (fst (accept 1 102 None 50 demoDB)) \<and> snd (accept 1 102 None 50 demoDB) = demoDB \<and>
   \<not> ok (fst (decline 1 104 None 50 demoDB)) \<and>
   \<not> ok (fst (updateStatus 1 102 ''in-progress'' 50 demoDB)) \<and>
   snd (updateStatus 1 102 ''in-progress'' 50 demoDB) = demoDB \<and>
   statusOf 104 (run [StatusOp 2 104 ''completed'' 70, AcceptOp 1 104 None 71,
                      StatusOp 1 104 ''in-progress'' 72] demoDB) = Some Completed"
proof -
  have a: "findById 102 (swapRequests demoDB) = Some (demoRequest 102 Declined)"
    by (simp add: demo_defs)
  have b: "findById 104 (swapRequests demoDB) = Some (demoRequest 104 Completed)"
    by (simp add: demo_defs)
  have sa: "status (demoRequest 102 Declined) = Declined \<or> status (demoRequest 102 Declined) = Completed"
    by (simp add: demoRequest_def)
  have sb: "status (demoRequest 104 Completed) = Declined \<or> status (demoRequest 104 Completed) = Completed"
    by (simp add: demoRequest_def)
  have sc: "status (demoRequest 104 Completed) = Completed"
    by (simp add: demoRequest_def)
  show ?thesis
    using terminal_status_rejections [OF a sa, of 1 None 50]
          terminal_status_rejections [OF b sb, of 1 None 50] sc
    by simp
qed

text \<open>
  The claim fails for the status update to \<open>completed\<close>: Alice, the provider of the
  declined request 102, sends \<open>completed\<close>; the reply is a success and the request is
  \<open>completed\<close>. On the completed request 104 the same call is answered with a success too.
\<close>

theorem terminal_status_counterexample:
  "statusOf 102 demoDB = Some Declined \<and>
   ok (fst (updateStatus 1 102 ''completed'' 50 demoDB)) \<and>
   statusOf 102 (snd (updateStatus 1 102 ''completed'' 50 demoDB)) = Some Completed \<and>
   statusOf 104 demoDB = Some Completed \<and>
   ok (fst (updateStatus 2 104 ''completed'' 50 demoDB))"
  by (simp add: updateStatus_cases statusOf_def ok_resolved demo_defs findById_update_same
      statusOfString_def)

section \<open>The status update\<close>

text \<open>
  C3. For a request that resolves and a caller who is its requester or its provider, the
  status update to \<open>in-progress\<close> succeeds exactly when the current status is
  \<open>accepted\<close>, and then stores \<open>in-progress\<close>; the rejection "Can't start until both
  people have agreed to the swap." is the reply exactly when the new status is
  \<open>in-progress\<close> and the current status is not \<open>accepted\<close>; the update to \<open>completed\<close>
  succeeds from every current status and stores \<open>completed\<close>.
\<close>

theorem updateStatus_in_progress_iff_accepted:
  assumes "findById requestId (swapRequests db) = Some r"
      and "requester r = caller \<or> skillProvider r = caller"
  shows "(ok (fst (updateStatus caller requestId ''in-progress'' now db)) \<longleftrightarrow> status r = Accepted) \<and>
         (\<forall>s. fst (updateStatus caller requestId s now db) =
                 Reply 400 (Err ''Can't start until both people have agreed to the swap.'')
               \<longleftrightarrow> s = ''in-progress'' \<and> status r \<noteq> Accepted) \<and>
         ok (fst (updateStatus caller requestId ''completed'' now db)) \<and>
         (status r = Accepted \<longrightarrow>
            statusOf requestId (snd (updateStatus caller requestId ''in-progress'' now db))
              = Some InProgress) \<and>
         statusOf requestId (snd (updateStatus caller requestId ''completed'' now db))
           = Some Completed"
  using assms
  by (auto simp: updateStatus_def validStatuses_def resolved_def ok_def Let_def statusOfString_def
      statusOf_def findById_update_same)

theorem updateStatus_in_progress_iff_accepted_witness:
  "ok (fst (updateStatus 2 101 ''in-progress'' 50 demoDB)) \<and>
   statusOf 101 (snd (updateStatus 2 101 ''in-progress'' 50 demoDB)) = Some InProgress \<and>
   \<not> ok (fst (updateStatus 1 100 ''in-progress'' 50 demoDB)) \<and>
   fst (updateStatus 1 100 ''in-progress'' 50 demoDB) =
     Reply 400 (Err ''Can't start until both people have agreed to the swap.'') \<and>
   statusOf 100 (snd (updateStatus 1 100 ''completed'' 50 demoDB)) = Some Completed"
proof -
  have a: "findById 101 (swapRequests demoDB) = Some (demoRequest 101 Accepted)"
    by (simp add: demo_defs)
  have b: "findById 100 (swapRequests demoDB) = Some (demoRequest 100 Pending)"
    by (simp add: demo_defs)
  have pa: "requester (demoRequest 101 Accepted) = 2 \<or> skillProvider (demoRequest 101 Accepted) = 2"
    by (simp add: demoRequest_def)
  have pb: "requester (demoRequest 100 Pending) = 1 \<or> skillProvider (demoRequest 100 Pending) = 1"
    by (simp add: demoRequest_def)
  show ?thesis
    using updateStatus_in_progress_iff_accepted [OF a pa, of 50]
          updateStatus_in_progress_iff_accepted [OF b pb, of 50]
    by (simp add: demoRequest_def)
qed

section \<open>Accepting and declining\<close>

text \<open>
  C4, as the code has it. A respond call (accept or decline) succeeds exactly when the
  request resolves, the caller is its provider and its status is \<open>pending\<close>. After a
  success the reply is the resolved request, the stored status is \<open>accepted\<close> or
  \<open>declined\<close> as decided, and a response message sent with the call is stored. Every
  second respond call on the request fails and changes nothing: from the provider it is
  answered with status 400 and "This request has already been answered.", from any other
  caller with status 403.
\<close>

theorem respond_only_from_pending_once:
  "(ok (fst (respond d caller i m now db)) \<longleftrightarrow>
      (\<exists>r. findById i (swapRequests db) = Some r \<and> skillProvider r = caller \<and> status r = Pending)) \<and>
   (ok (fst (respond d caller i m now db)) \<longrightarrow>
      fst (respond d caller i m now db) = resolved i (snd (respond d caller i m now db)) \<and>
      statusOf i (snd (respond d caller i m now db)) = Some (decided d) \<and>
      (\<forall>x. m = Some x \<longrightarrow>
         map_option responseMessage (findById i (swapRequests (snd (respond d caller i m now db))))
           = Some (Some x)) \<and>
      (\<forall>d' caller' m' now'.
         respond d' caller' i m' now' (snd (respond d caller i m now db)) =
           (if caller' = caller
            then Reply 400 (Err ''This request has already been answered.'')
            else Reply 403 (Err (notYours d')),
            snd (respond d caller i m now db))) \<and>
      (\<forall>d' caller' m' now'.
         \<not> ok (fst (respond d' caller' i m' now' (snd (respond d caller i m now db))))))"
proof (intro conjI impI)
  show "ok (fst (respond d caller i m now db)) \<longleftrightarrow>
      (\<exists>r. findById i (swapRequests db) = Some r \<and> skillProvider r = caller \<and> status r = Pending)"
    by (rule respond_ok_iff)
next
  assume a: "ok (fst (respond d caller i m now db))"
  let ?db' = "snd (respond d caller i m now db)"
  from respond_after [OF a] obtain r where
    r: "skillProvider r = caller"
       "fst (respond d caller i m now db) = resolved i ?db'"
       "findById i (swapRequests ?db') = Some ((setResponse (decided d) m r)\<lparr>updatedAt := now\<rparr>)"
    by blast
  have st: "decided d \<noteq> Pending" by (cases d) (simp_all add: decided_def)
  have prov: "skillProvider (setResponse (decided d) m r) = caller"
    using r(1) by (simp add: setResponse_def split: option.splits)
  show "fst (respond d caller i m now db) = resolved i ?db'" by (rule r(2))
  show "statusOf i ?db' = Some (decided d)"
    by (simp add: statusOf_def r(3) status_setResponse)
  show "\<forall>x. m = Some x \<longrightarrow>
         map_option responseMessage (findById i (swapRequests ?db')) = Some (Some x)"
    using r(3) by (auto simp: message_setResponse)
  show "\<forall>d' caller' m' now'. respond d' caller' i m' now' ?db' =
           (if caller' = caller
            then Reply 400 (Err ''This request has already been answered.'')
            else Reply 403 (Err (notYours d')), ?db')"
    using st prov by (auto simp: respond_cases [of _ _ _ _ _ ?db'] r(3) status_setResponse)
  show "\<forall>d' caller' m' now'. \<not> ok (fst (respond d' caller' i m' now' ?db'))"
    using st by (simp add: respond_ok_iff r(3) status_setResponse)
qed

theorem respond_only_from_pending_once_witness:
  "ok (fst (accept 1 100 (Some ''ok'') 50 demoDB)) \<and>
   statusOf 100 (snd (accept 1 100 (Some ''ok'') 50 demoDB)) = Some Accepted \<and>
   map_option responseMessage
     (findById 100 (swapRequests (snd (accept 1 100 (Some ''ok'') 50 demoDB)))) = Some (Some ''ok'') \<and>
   fst (decline 1 100 None 51 (snd (accept 1 100 (Some ''ok'') 50 demoDB))) =
     Reply 400 (Err ''This request has already been answered.'') \<and>
   fst (decline 3 100 None 51 (snd (accept 1 100 (Some ''ok'') 50 demoDB))) =
     Reply 403 (Err ''You can only decline requests sent to you.'') \<and>
   \<not> ok (fst (accept 2 100 None 50 demoDB))"
proof -
  have e: "\<exists>r. findById 100 (swapRequests demoDB) = Some r \<and> skillProvider r = 1 \<and> status r = Pending"
    by (simp add: demo_defs)
  have n: "\<not> (\<exists>r. findById 100 (swapRequests demoDB) = Some r \<and> skillProvider r = 2 \<and> status r = Pending)"
    by (simp add: demo_defs)
  note t = respond_only_from_pending_once [of Accept 1 100 "Some ''ok''" 50 demoDB]
  from t e have k: "ok (fst (respond Accept 1 100 (Some ''ok'') 50 demoDB))" by blast
  from respond_only_from_pending_once [of Accept 2 100 None 50 demoDB] n
  have k2: "\<not> ok (fst (respond Accept 2 100 None 50 demoDB))" by blast
  from t k have a:
    "statusOf 100 (snd (respond Accept 1 100 (Some ''ok'') 50 demoDB)) = Some (decided Accept)"
    "map_option responseMessage
       (findById 100 (swapRequests (snd (respond Accept 1 100 (Some ''ok'') 50 demoDB)))) = Some (Some ''ok'')"
    by blast+
  from t k have b: "\<forall>d' caller' m' now'.
      respond d' caller' 100 m' now' (snd (respond Accept 1 100 (Some ''ok'') 50 demoDB)) =
        (if caller' = 1
         then Reply 400 (Err ''This request has already been answered.'')
         else Reply 403 (Err (notYours d')),
         snd (respond Accept 1 100 (Some ''ok'') 50 demoDB))"
    by blast
  have b1: "respond Decline 1 100 None 51 (snd (respond Accept 1 100 (Some ''ok'') 50 demoDB)) =
      (Reply 400 (Err ''This request has already been answered.''),
       snd (respond Accept 1 100 (Some ''ok'') 50 demoDB))"
    using b [rule_format, of Decline 1 None 51] by simp
  have b3: "respond Decline 3 100 None 51 (snd (respond Accept 1 100 (Some ''ok'') 50 demoDB)) =
      (Reply 403 (Err ''You can only decline requests sent to you.''),
       snd (respond Accept 1 100 (Some ''ok'') 50 demoDB))"
    using b [rule_format, of Decline 3 None 51] by (simp add: notYours_def)
  from k k2 a b1 b3 show ?thesis
    by (simp add: accept_respond decline_respond decided_def)
qed

text \<open>
  The claim fails on the second call. After Alice has accepted request 100, Carol's
  decline is answered with status 403, not with the rejection for a request that is no
  longer pending; and Alice's own second call is answered with status 400, not 409.
\<close>

theorem respond_second_call_counterexample:
  "ok (fst (accept 1 100 None 50 demoDB)) \<and>
   fst (decline 3 100 None 51 (snd (accept 1 100 None 50 demoDB))) =
     Reply 403 (Err ''You can only decline requests sent to you.'') \<and>
   fst (accept 1 100 None 51 (snd (accept 1 100 None 50 demoDB))) =
     Reply 400 (Err ''This request has already been answered.'') \<and>
   statusCode (fst (accept 1 100 None 51 (snd (accept 1 100 None 50 demoDB)))) \<noteq> 409"
  by (simp add: accept_def decline_def acceptGuards_def declineGuards_def acceptUpdate_def
      Let_def resolved_def ok_Reply statusCode_def setResponse_def demo_defs)

text \<open>
  C5, as the code has it. An accept or decline call on a request that resolves and whose
  status is not \<open>pending\<close> fails and leaves the store as it was: with status 403 when the
  caller is not the provider, and otherwise with status 400 and the message "This request
  has already been answered.".
\<close>

theorem respond_not_pending_rejected:
  assumes "findById i (swapRequests db) = Some r" and "status r \<noteq> Pending"
  shows "respond d caller i m now db =
           (if skillProvider r = caller
            then Reply 400 (Err ''This request has already been answered.'')
            else Reply 403 (Err (notYours d)), db)"
  using assms by (simp add: respond_cases)

theorem respond_not_pending_rejected_witness:
  "accept 1 101 None 50 demoDB =
     (Reply 400 (Err ''This request has already been answered.''), demoDB) \<and>
   decline 3 101 None 50 demoDB =
     (Reply 403 (Err ''You can only decline requests sent to you.''), demoDB)"
proof -
  have a: "findById 101 (swapRequests demoDB) = Some (demoRequest 101 Accepted)"
    by (simp add: demo_defs)
  have s: "status (demoRequest 101 Accepted) \<noteq> Pending"
    by (simp add: demoRequest_def)
  show ?thesis
    using respond_not_pending_rejected [OF a s, of Accept 1 None 50]
          respond_not_pending_rejected [OF a s, of Decline 3 None 50]
    by (simp add: accept_respond decline_respond notYours_def demoRequest_def)
qed

text \<open>
  The claim fails on the accepted request 101: Alice, its provider, is answered with
  status 400, and Carol, who has no part in it, with status 403; neither reply is 409.
\<close>

theorem respond_not_pending_counterexample:
  "statusOf 101 demoDB = Some Accepted \<and>
   fst (accept 1 101 None 50 demoDB) = Reply 400 (Err ''This request has already been answered.'') \<and>
   fst (accept 3 101 None 50 demoDB) = Reply 403 (Err ''You can only accept requests sent to you.'') \<and>
   statusCode (fst (accept 1 101 None 50 demoDB)) \<noteq> 409 \<and>
   statusCode (fst (decline 3 101 None 50 demoDB)) \<noteq> 409"
  by (simp add: accept_def decline_def acceptGuards_def declineGuards_def statusOf_def
      statusCode_def demo_defs)

section \<open>Creating a request\<close>

lemma summary_fields:
  "summary = (\<lambda>u. \<lparr>summary_id = oid u, summary_username = username u,
                     summary_name = name u, summary_location = location u\<rparr>)"
  by (rule ext) (simp add: summary_def)

text \<open>
  C6. Create answers 404 when either skill id does not resolve; otherwise 400 when the
  caller owns the requested skill, whoever owns the offered one; otherwise 403 when the
  caller does not own the offered skill; in each of these the store is as it was.
  Otherwise it appends one new request: pending, from the caller, to the owner of the
  requested skill, with the two skill ids and the two texts of the body; and the reply is
  201 with that request resolved: requester and provider as the summaries of the two
  users (the id, \<open>username\<close>, \<open>name\<close> and \<open>location\<close> of the user document, or nothing
  when the user does not resolve), and both skill documents in full.
\<close>

theorem create_checks_in_order:
  "(findById sr (skills db) = None \<or> findById so (skills db) = None \<longrightarrow>
      create caller sr so c m now db = (Reply 404 (Err ''One or both skills not found.''), db)) \<and>
   (\<forall>s t. findById sr (skills db) = Some s \<and> findById so (skills db) = Some t \<and> user s = caller \<longrightarrow>
      create caller sr so c m now db =
        (Reply 400 (Err ''Cannot create swap request with yourself.''), db)) \<and>
   (\<forall>s t. findById sr (skills db) = Some s \<and> findById so (skills db) = Some t \<and>
          user s \<noteq> caller \<and> user t \<noteq> caller \<longrightarrow>
      create caller sr so c m now db = (Reply 403 (Err ''You can only offer skills you own.''), db)) \<and>
   (\<forall>s t. findById sr (skills db) = Some s \<and> findById so (skills db) = Some t \<and>
          user s \<noteq> caller \<and> user t = caller \<longrightarrow>
      (\<exists>r p. create caller sr so c m now db =
                (Reply 201 (Request (Some p)), db\<lparr>swapRequests := swapRequests db @ [r]\<rparr>) \<and>
             status r = Pending \<and> requester r = caller \<and> skillProvider r = user s \<and>
             skillRequested r = sr \<and> skillOffered r = so \<and>
             comments r = c \<and> requestMessage r = m \<and> responseMessage r = None \<and>
             createdAt r = now \<and>
             findById (oid r) (swapRequests db) = None \<and>
             p = populate db r \<and>
             status p = Pending \<and>
             requester p =
               map_option (\<lambda>u. \<lparr>summary_id = oid u, summary_username = username u,
                                summary_name = name u, summary_location = location u\<rparr>)
                 (findById caller (users db)) \<and>
             skillProvider p =
               map_option (\<lambda>u. \<lparr>summary_id = oid u, summary_username = username u,
                                summary_name = name u, summary_location = location u\<rparr>)
                 (findById (user s) (users db)) \<and>
             skillRequested p = Some s \<and> skillOffered p = Some t))"
  by (auto simp: create_def Let_def findById_append newObjectId_fresh populate_def populateUser_def
      summary_fields split: option.splits)

theorem create_checks_in_order_witness:
  "create 2 99 20 None None 60 demoDB = (Reply 404 (Err ''One or both skills not found.''), demoDB) \<and>
   create 1 10 20 None None 60 demoDB =
     (Reply 400 (Err ''Cannot create swap request with yourself.''), demoDB) \<and>
   create 3 10 20 None None 60 demoDB = (Reply 403 (Err ''You can only offer skills you own.''), demoDB) \<and>
   (\<exists>r p. create 2 10 20 None (Some ''hi'') 60 demoDB =
            (Reply 201 (Request (Some p)), demoDB\<lparr>swapRequests := swapRequests demoDB @ [r]\<rparr>) \<and>
          status r = Pending \<and> requester r = 2 \<and> skillProvider r = 1 \<and>
          requester p = Some \<lparr>summary_id = 2, summary_username = ''bob'', summary_name = Some ''bob'',
                  summary_location = Some ''Athens''\<rparr> \<and>
          skillProvider p = Some \<lparr>summary_id = 1, summary_username = ''alice'', summary_name = Some ''alice'',
                  summary_location = Some ''Athens''\<rparr> \<and>
          skillRequested p = Some (demoSkill 10 1 ''Guitar'' True) \<and>
          skillOffered p = Some (demoSkill 20 2 ''Spanish'' True))"
proof -
  have g: "findById 10 (skills demoDB) = Some (demoSkill 10 1 ''Guitar'' True)"
    and sp: "findById 20 (skills demoDB) = Some (demoSkill 20 2 ''Spanish'' True)"
    and no: "findById 99 (skills demoDB) = None"
    and u1: "findById 1 (users demoDB) = Some (demoUser 1 ''alice'')"
    and u2: "findById 2 (users demoDB) = Some (demoUser 2 ''bob'')"
    by (simp_all add: demo_defs)
  have og: "user (demoSkill 10 1 ''Guitar'' True) = 1"
    and os: "user (demoSkill 20 2 ''Spanish'' True) = 2"
    by (simp_all add: demoSkill_def)
  from create_checks_in_order [of 99 demoDB 20 2 None None 60] no
  have 1: "create 2 99 20 None None 60 demoDB =
      (Reply 404 (Err ''One or both skills not found.''), demoDB)" by simp
  from create_checks_in_order [of 10 demoDB 20 1 None None 60] g sp og
  have 2: "create 1 10 20 None None 60 demoDB =
      (Reply 400 (Err ''Cannot create swap request with yourself.''), demoDB)" by simp
  from create_checks_in_order [of 10 demoDB 20 3 None None 60] g sp og os
  have 3: "create 3 10 20 None None 60 demoDB =
      (Reply 403 (Err ''You can only offer skills you own.''), demoDB)" by simp
  from create_checks_in_order [of 10 demoDB 20 2 None "Some ''hi''" 60] g sp og os
  obtain r p where rp: "create 2 10 20 None (Some ''hi'') 60 demoDB =
            (Reply 201 (Request (Some p)), demoDB\<lparr>swapRequests := swapRequests demoDB @ [r]\<rparr>)"
     "status r = Pending" "requester r = 2"
     "skillProvider r = user (demoSkill 10 1 ''Guitar'' True)"
     "requester p = map_option (\<lambda>u. \<lparr>summary_id = oid u, summary_username = username u,
                                summary_name = name u, summary_location = location u\<rparr>) (findById 2 (users demoDB))"
     "skillProvider p = map_option (\<lambda>u. \<lparr>summary_id = oid u, summary_username = username u,
                                summary_name = name u, summary_location = location u\<rparr>) (findById (user (demoSkill 10 1 ''Guitar'' True)) (users demoDB))"
     "skillRequested p = Some (demoSkill 10 1 ''Guitar'' True)"
     "skillOffered p = Some (demoSkill 20 2 ''Spanish'' True)"
    by auto
  have pr: "skillProvider r = 1" using rp(4) og by simp
  have pq: "requester p = Some \<lparr>summary_id = 2, summary_username = ''bob'', summary_name = Some ''bob'',
                  summary_location = Some ''Athens''\<rparr>" using rp(5) u2 by (simp add: demoUser_def)
  have pp: "skillProvider p = Some \<lparr>summary_id = 1, summary_username = ''alice'', summary_name = Some ''alice'',
                  summary_location = Some ''Athens''\<rparr>" using rp(6) og u1 by (simp add: demoUser_def)
  have 4: "\<exists>r p. create 2 10 20 None (Some ''hi'') 60 demoDB =
            (Reply 201 (Request (Some p)), demoDB\<lparr>swapRequests := swapRequests demoDB @ [r]\<rparr>) \<and>
          status r = Pending \<and> requester r = 2 \<and> skillProvider r = 1 \<and>
          requester p = Some \<lparr>summary_id = 2, summary_username = ''bob'', summary_name = Some ''bob'',
                  summary_location = Some ''Athens''\<rparr> \<and>
          skillProvider p = Some \<lparr>summary_id = 1, summary_username = ''alice'', summary_name = Some ''alice'',
                  summary_location = Some ''Athens''\<rparr> \<and>
          skillRequested p = Some (demoSkill 10 1 ''Guitar'' True) \<and>
          skillOffered p = Some (demoSkill 20 2 ''Spanish'' True)"
    by (intro exI conjI) (rule rp(1) rp(2) rp(3) pr pq pp rp(7) rp(8))+
  show ?thesis by (intro conjI 1 2 3 4)
qed

text \<open>
  C10. Create does not read \<open>isActive\<close>: whenever both skills resolve, the caller owns
  the offered one and not the requested one, the reply is 201 and the new request is
  pending, whatever the \<open>isActive\<close> flags of the two skills are; the reply shows the
  two skills with the flags they are stored with.
\<close>

theorem create_ignores_isActive:
  assumes "findById sr (skills db) = Some s" and "findById so (skills db) = Some t"
      and "user s \<noteq> caller" and "user t = caller"
  shows "statusCode (fst (create caller sr so c m now db)) = 201 \<and>
         ok (fst (create caller sr so c m now db)) \<and>
         statusOf (newObjectId (swapRequests db)) (snd (create caller sr so c m now db)) = Some Pending \<and>
         (\<exists>p. fst (create caller sr so c m now db) = Reply 201 (Request (Some p)) \<and>
              status p = Pending \<and>
              map_option isActive (skillRequested p) = Some (isActive s) \<and>
              map_option isActive (skillOffered p) = Some (isActive t))"
  using assms
  by (simp add: create_def Let_def findById_append newObjectId_fresh populate_def statusOf_def
      statusCode_def ok_Reply)



theorem create_ignores_isActive_witness:
  "map_option isActive (findById 30 (skills demoDB)) = Some False \<and>
   map_option isActive (findById 40 (skills demoDB)) = Some False \<and>
   statusCode (fst (create 2 30 40 None None 60 demoDB)) = 201 \<and>
   statusOf (newObjectId (swapRequests demoDB)) (snd (create 2 30 40 None None 60 demoDB)) = Some Pending \<and>
   (\<exists>p. fst (create 2 30 40 None None 60 demoDB) = Reply 201 (Request (Some p)) \<and>
        map_option isActive (skillRequested p) = Some False \<and>
        map_option isActive (skillOffered p) = Some False)"
proof -
  have p: "findById 30 (skills demoDB) = Some (demoSkill 30 1 ''Pottery'' False)"
    and c: "findById 40 (skills demoDB) = Some (demoSkill 40 2 ''Chess'' False)"
    by (simp_all add: demo_defs)
  have op: "user (demoSkill 30 1 ''Pottery'' False) \<noteq> 2"
    and oc: "user (demoSkill 40 2 ''Chess'' False) = 2"
    by (simp_all add: demoSkill_def)
  have ip: "isActive (demoSkill 30 1 ''Pottery'' False) = False"
    and ic: "isActive (demoSkill 40 2 ''Chess'' False) = False"
    by (simp_all add: demoSkill_def)
  show ?thesis
    using create_ignores_isActive [OF p c op oc, of None None 60]
    by (auto simp: p c demoSkill_def)
qed

section \<open>Inbox and outbox\<close>

lemma createdAt_populate: "createdAt (populate db r) = createdAt r"
  by (simp add: populate_def)

lemma oid_populate: "oid (populate db r) = oid r"
  by (simp add: populate_def)

lemma newestFirst_sort: "newestFirst (sortNewestFirst ds)"
proof -
  have "sorted (map (\<lambda>d. - int (createdAt d)) (sort_key (\<lambda>d. - int (createdAt d)) ds))"
    by (rule sorted_sort_key)
  then show ?thesis
    by (simp add: newestFirst_def sortNewestFirst_def sorted_wrt_map)
qed

lemma newestFirst_populate: "newestFirst (map (populate db) (sortNewestFirst ds))"
  using newestFirst_sort [of ds]
  by (simp add: newestFirst_def sorted_wrt_map createdAt_populate)

lemma set_sortNewestFirst: "set (sortNewestFirst ds) = set ds"
  by (simp add: sortNewestFirst_def)

lemma mset_sortNewestFirst: "mset (sortNewestFirst ds) = mset ds"
  by (simp add: sortNewestFirst_def)

lemma distinct_sortNewestFirst:
  "distinct (map oid ds) \<Longrightarrow> distinct (map oid (sortNewestFirst ds))"
proof -
  assume d: "distinct (map oid ds)"
  have "mset (map oid (sortNewestFirst ds)) = mset (map oid ds)"
    by (simp add: mset_sortNewestFirst)
  then have "distinct (map oid (sortNewestFirst ds)) = distinct (map oid ds)"
    by (rule mset_eq_imp_distinct_iff)
  with d show ?thesis by blast
qed

text \<open>
  C7. The requests a user received, together with the requests the user sent, are as a
  set the requests of the combined list. The combined list holds each stored request
  that names the user exactly once (as a multiset it is the stored requests that match,
  resolved), so where the stored ids are distinct the listed ids are distinct. Each of the
  three lists is ordered newest first, and none of the three handlers changes the store.
\<close>

theorem inbox_outbox_union:
  "set (requestsOf (fst (listReceived u db))) \<union> set (requestsOf (fst (listSent u db)))
     = set (requestsOf (fst (listAll u db))) \<and>
   mset (requestsOf (fst (listAll u db))) =
     mset (map (populate db)
       (filter (\<lambda>r. requester r = u \<or> skillProvider r = u) (swapRequests db))) \<and>
   (distinct (map oid (swapRequests db)) \<longrightarrow>
      distinct (map oid (requestsOf (fst (listAll u db))))) \<and>
   newestFirst (requestsOf (fst (listAll u db))) \<and>
   newestFirst (requestsOf (fst (listReceived u db))) \<and>
   newestFirst (requestsOf (fst (listSent u db))) \<and>
   snd (listAll u db) = db \<and> snd (listReceived u db) = db \<and> snd (listSent u db) = db"
proof -
  let ?all = "filter (\<lambda>r. requester r = u \<or> skillProvider r = u) (swapRequests db)"
  have a: "requestsOf (fst (listAll u db)) = map (populate db) (sortNewestFirst ?all)"
    by (simp add: listAll_def requestsOf_def)
  have r: "requestsOf (fst (listReceived u db)) =
      map (populate db) (sortNewestFirst (filter (\<lambda>r. skillProvider r = u) (swapRequests db)))"
    by (simp add: listReceived_def requestsOf_def)
  have s: "requestsOf (fst (listSent u db)) =
      map (populate db) (sortNewestFirst (filter (\<lambda>r. requester r = u) (swapRequests db)))"
    by (simp add: listSent_def requestsOf_def)
  have 1: "set (requestsOf (fst (listReceived u db))) \<union> set (requestsOf (fst (listSent u db)))
     = set (requestsOf (fst (listAll u db)))"
    unfolding a r s by (auto simp: set_sortNewestFirst)
  have 2: "mset (requestsOf (fst (listAll u db))) = mset (map (populate db) ?all)"
    unfolding a by (simp add: mset_sortNewestFirst)
  have 3: "distinct (map oid (swapRequests db)) \<longrightarrow>
      distinct (map oid (requestsOf (fst (listAll u db))))"
  proof
    assume "distinct (map oid (swapRequests db))"
    then have "distinct (map oid ?all)" by (rule distinct_map_filter)
    then have "distinct (map oid (sortNewestFirst ?all))" by (rule distinct_sortNewestFirst)
    then show "distinct (map oid (requestsOf (fst (listAll u db))))"
      unfolding a by (simp add: o_def oid_populate)
  qed
  have 4: "newestFirst (requestsOf (fst (listAll u db)))"
    "newestFirst (requestsOf (fst (listReceived u db)))"
    "newestFirst (requestsOf (fst (listSent u db)))"
    unfolding a r s by (rule newestFirst_populate)+
  have 5: "snd (listAll u db) = db" "snd (listReceived u db) = db" "snd (listSent u db) = db"
    by (simp_all add: listAll_def listReceived_def listSent_def)
  show ?thesis by (intro conjI 1 2 3 4 5)
qed



theorem inbox_outbox_union_witness:
  "distinct (map oid (swapRequests demoDB)) \<and>
   distinct (map oid (requestsOf (fst (listAll 1 demoDB)))) \<and>
   set (requestsOf (fst (listReceived 1 demoDB))) \<union> set (requestsOf (fst (listSent 1 demoDB)))
     = set (requestsOf (fst (listAll 1 demoDB))) \<and>
   newestFirst (requestsOf (fst (listAll 1 demoDB))) \<and>
   map oid (requestsOf (fst (listAll 1 demoDB))) = [104, 103, 102, 101, 100] \<and>
   map oid (requestsOf (fst (listSent 1 demoDB))) = []"
proof -
  have d: "distinct (map oid (swapRequests demoDB))"
    by (simp add: demo_defs)
  have e: "map oid (requestsOf (fst (listAll 1 demoDB))) = [104, 103, 102, 101, 100]"
    by (simp add: listAll_def requestsOf_def sortNewestFirst_def populate_def demo_defs)
  have s: "map oid (requestsOf (fst (listSent 1 demoDB))) = []"
    by (simp add: listSent_def requestsOf_def sortNewestFirst_def populate_def demo_defs)
  show ?thesis
    using inbox_outbox_union [of 1 demoDB] d e s by blast
qed

section \<open>Soft-deleted skills\<close>

lemma filterByLocation_subset: "filterByLocation loc xs = Some ys \<Longrightarrow> set ys \<subseteq> set xs"
  by (induction xs arbitrary: ys) (auto split: option.splits if_splits)

lemma whereLocation_subset: "whereLocation q xs = Some ys \<Longrightarrow> set ys \<subseteq> set xs"
  by (auto simp: whereLocation_def split: option.splits if_splits dest: filterByLocation_subset)

lemma oid_populateSkill: "oid (populateSkill db s) = oid s"
  by (simp add: populateSkill_def)

lemma browse_shows_active: "set (shownSkills (fst (browse rx q db))) \<subseteq> activeIds db"
proof (cases "whereLocation (qLocation q) (map (populateSkill db) (sortNewestFirst
            (filter (\<lambda>s. isActive s \<and> matchesText rx (qSearch q) s \<and>
                         matchesField (qCategory q) (category s) \<and>
                         matchesField (qSkillLevel q) (skillLevel s) \<and>
                         matchesField (qType q) (skillType s)) (skills db))))")
  case None
  then show ?thesis by (simp add: browse_def Let_def shownSkills_def)
next
  case (Some kept)
  from whereLocation_subset [OF Some] have "oid ` set kept \<subseteq> activeIds db"
    by (auto simp: activeIds_def set_sortNewestFirst oid_populateSkill)
  with Some show ?thesis by (simp add: browse_def Let_def shownSkills_def)
qed

lemma search_shows_active: "set (shownSkills (fst (search rx q db))) \<subseteq> activeIds db"
proof (cases "whereLocation (qLocation q) (map (populateSkill db) (sortNewestFirst
            (filter (\<lambda>s. isActive s \<and> matchesText rx (qSearch q) s \<and>
                         matchesField (qCategory q) (category s) \<and>
                         matchesField (qSkillLevel q) (skillLevel s) \<and>
                         matchesField (qType q) (skillType s) \<and>
                         matchesOptField (qTimeFrame q) (timeFrame s)) (skills db))))")
  case None
  then show ?thesis by (simp add: search_def Let_def shownSkills_def)
next
  case (Some kept)
  from whereLocation_subset [OF Some] have "oid ` set kept \<subseteq> activeIds db"
    by (auto simp: activeIds_def set_sortNewestFirst oid_populateSkill)
  with Some show ?thesis by (auto simp: search_def Let_def shownSkills_def)
qed

lemma mySkills_shows_active: "set (shownSkills (fst (mySkills u db))) \<subseteq> activeIds db"
  by (auto simp: mySkills_def shownSkills_def activeIds_def set_sortNewestFirst)

lemma update_distinct_mem:
  assumes "distinct (map oid ds)" and "\<And>d. oid (f d) = oid d"
      and "d \<in> set (findByIdAndUpdate i f now ds)" and "oid d = i"
  shows "\<exists>x \<in> set ds. d = (f x)\<lparr>updatedAt := now\<rparr>"
  using assms(1,3,4)
proof (induction ds)
  case Nil
  then show ?case by simp
next
  case (Cons a ds)
  show ?case
  proof (cases "oid a = i")
    case True
    with Cons.prems show ?thesis by (auto simp: image_iff)
  next
    case False
    with Cons show ?thesis by auto
  qed
qed

lemma map_oid_update:
  assumes "\<And>d. oid (f d) = oid d"
  shows "map oid (findByIdAndUpdate i f now ds) = map oid ds"
  by (induction ds) (simp_all add: assms)

lemma deleted_not_active:
  assumes "distinct (map oid (skills db))"
  shows "k \<notin> activeIds (db\<lparr>skills := findByIdAndUpdate k (\<lambda>s. s\<lparr>isActive := False\<rparr>) now (skills db)\<rparr>)"
proof
  assume "k \<in> activeIds (db\<lparr>skills := findByIdAndUpdate k (\<lambda>s. s\<lparr>isActive := False\<rparr>) now (skills db)\<rparr>)"
  then obtain d where d: "d \<in> set (findByIdAndUpdate k (\<lambda>s. s\<lparr>isActive := False\<rparr>) now (skills db))"
    "isActive d" "oid d = k"
    by (auto simp: activeIds_def)
  from update_distinct_mem [OF assms _ d(1) d(3)] obtain x where
    "d = (x\<lparr>isActive := False\<rparr>)\<lparr>updatedAt := now\<rparr>" by auto
  with d(2) show False by simp
qed

text \<open>
  C8. When the owner deletes a skill (ids being unique in the collection), the reply is
  the success message, the stored document is the same one with \<open>isActive\<close> false (and
  a new \<open>updatedAt\<close>), no document leaves the collection and the requests are untouched.
  Afterwards the skill is in no result of browse, search or my-skills, for any query and
  any user, and every request that names it, as requested or as offered skill, still
  resolves it to the full document.
\<close>

theorem soft_delete_hides_but_resolves:
  assumes "findById k (skills db) = Some s" and "user s = caller"
      and "distinct (map oid (skills db))"
  shows "fst (deleteSkill caller k now db) = Reply 200 (Message ''Skill deleted successfully.'') \<and>
         findById k (skills (snd (deleteSkill caller k now db))) =
           Some (s\<lparr>isActive := False, updatedAt := now\<rparr>) \<and>
         map oid (skills (snd (deleteSkill caller k now db))) = map oid (skills db) \<and>
         swapRequests (snd (deleteSkill caller k now db)) = swapRequests db \<and>
         (\<forall>rx q. k \<notin> set (shownSkills (fst (browse rx q (snd (deleteSkill caller k now db)))))) \<and>
         (\<forall>rx q. k \<notin> set (shownSkills (fst (search rx q (snd (deleteSkill caller k now db)))))) \<and>
         (\<forall>u. k \<notin> set (shownSkills (fst (mySkills u (snd (deleteSkill caller k now db)))))) \<and>
         (\<forall>r. skillRequested r = k \<longrightarrow>
            skillRequested (populate (snd (deleteSkill caller k now db)) r) =
              Some (s\<lparr>isActive := False, updatedAt := now\<rparr>)) \<and>
         (\<forall>r. skillOffered r = k \<longrightarrow>
            skillOffered (populate (snd (deleteSkill caller k now db)) r) =
              Some (s\<lparr>isActive := False, updatedAt := now\<rparr>))"
proof -
  let ?db' = "db\<lparr>skills := findByIdAndUpdate k (\<lambda>s. s\<lparr>isActive := False\<rparr>) now (skills db)\<rparr>"
  have del: "deleteSkill caller k now db = (Reply 200 (Message ''Skill deleted successfully.''), ?db')"
    using assms(1,2) by (simp add: deleteSkill_def)
  have f: "findById k (skills ?db') = Some (s\<lparr>isActive := False, updatedAt := now\<rparr>)"
    using assms(1) by (simp add: findById_update_same)
  have na: "k \<notin> activeIds ?db'" by (rule deleted_not_active [OF assms(3)])
  have b: "k \<notin> set (shownSkills (fst (browse rx q ?db')))" for rx q
    using na browse_shows_active [of rx q ?db'] by blast
  have c: "k \<notin> set (shownSkills (fst (search rx q ?db')))" for rx q
    using na search_shows_active [of rx q ?db'] by blast
  have m: "k \<notin> set (shownSkills (fst (mySkills u ?db')))" for u
    using na mySkills_shows_active [of u ?db'] by blast
  have p: "skillRequested (populate ?db' r) = Some (s\<lparr>isActive := False, updatedAt := now\<rparr>)"
    if "skillRequested r = k" for r
    using f that by (simp add: populate_def)
  have p': "skillOffered (populate ?db' r) = Some (s\<lparr>isActive := False, updatedAt := now\<rparr>)"
    if "skillOffered r = k" for r
    using f that by (simp add: populate_def)
  have ids: "map oid (skills ?db') = map oid (skills db)"
    by (simp add: map_oid_update)
  show ?thesis
    unfolding del fst_conv snd_conv
    by (intro conjI allI impI refl f ids b c m p p') simp_all
qed



theorem soft_delete_hides_but_resolves_witness:
  "10 \<in> set (shownSkills (fst (mySkills 1 demoDB))) \<and>
   fst (deleteSkill 1 10 70 demoDB) = Reply 200 (Message ''Skill deleted successfully.'') \<and>
   10 \<notin> set (shownSkills (fst (mySkills 1 (snd (deleteSkill 1 10 70 demoDB))))) \<and>
   10 \<notin> set (shownSkills (fst (browse (\<lambda>p t. True)
           \<lparr>qSearch = Some ''guitar'', qCategory = None, qSkillLevel = None, qType = None,
            qLocation = None, qTimeFrame = None\<rparr> (snd (deleteSkill 1 10 70 demoDB))))) \<and>
   skillRequested (populate (snd (deleteSkill 1 10 70 demoDB)) (demoRequest 100 Pending)) =
     Some ((demoSkill 10 1 ''Guitar'' True)\<lparr>isActive := False, updatedAt := 70\<rparr>)"
proof -
  have g: "findById 10 (skills demoDB) = Some (demoSkill 10 1 ''Guitar'' True)"
    by (simp add: demo_defs)
  have o: "user (demoSkill 10 1 ''Guitar'' True) = 1"
    by (simp add: demoSkill_def)
  have d: "distinct (map oid (skills demoDB))"
    by (simp add: demo_defs)
  have k: "skillRequested (demoRequest 100 Pending) = 10"
    by (simp add: demoRequest_def)
  have b: "10 \<in> set (shownSkills (fst (mySkills 1 demoDB)))"
    by (simp add: mySkills_def shownSkills_def set_sortNewestFirst demo_defs)
  show ?thesis
    using soft_delete_hides_but_resolves [OF g o d, of 70] k b by blast
qed

section \<open>Two respond calls at once\<close>

text \<open>A call that is served twice in a row is the handler itself.\<close>

lemma respondStep_sequential:
  "respondStep c (fst (respondStep c NotStarted db)) (snd (respondStep c NotStarted db)) =
     (Finished (fst (respond (callDecision c) (callCaller c) (callRequestId c) (callMessage c) (callTime c) db)),
      snd (respond (callDecision c) (callCaller c) (callRequestId c) (callMessage c) (callTime c) db))"
  by (cases "callDecision c")
     (simp_all add: respond_def accept_def decline_def split: option.splits prod.splits)

lemma skillProvider_setResponse: "skillProvider (setResponse st m r) = skillProvider r"
  by (simp add: setResponse_def split: option.splits)

text \<open>
  When both reads are served before either write, two calls of the provider on a pending
  request both pass their guards, and both finish with a success.
\<close>

lemma respond_overlap_both_succeed:
  assumes "findById i (swapRequests db) = Some r" and "status r = Pending"
      and "callCaller a = skillProvider r" and "callCaller b = skillProvider r"
      and "callRequestId a = i" and "callRequestId b = i"
  shows "\<exists>ra rb db'.
           interleave a b [First, Second, First, Second] (NotStarted, NotStarted, db)
             = (Finished ra, Finished rb, db') \<and>
           ok ra \<and> ok rb \<and> statusOf i db' = Some (decided (callDecision b))"
  using assms
  by (cases "callDecision a"; cases "callDecision b")
     (simp_all add: acceptGuards_def declineGuards_def acceptUpdate_def declineUpdate_def Let_def
        ok_resolved statusOf_def findById_update_same oid_setResponse status_setResponse decided_def
        skillProvider_setResponse)

lemma respond_settled:
  assumes "ok (fst (respond d caller i m now db))"
  shows "\<not> ok (fst (respond d' caller' i m' now' (snd (respond d caller i m now db))))"
    and "respond d' caller i m' now' (snd (respond d caller i m now db)) =
           (Reply 400 (Err ''This request has already been answered.''),
            snd (respond d caller i m now db))"
proof -
  let ?db' = "snd (respond d caller i m now db)"
  from respond_after [OF assms] obtain r where
    r: "skillProvider r = caller"
       "findById i (swapRequests ?db') = Some ((setResponse (decided d) m r)\<lparr>updatedAt := now\<rparr>)"
    by blast
  have st: "decided d \<noteq> Pending" by (cases d) (simp_all add: decided_def)
  show "\<not> ok (fst (respond d' caller' i m' now' ?db'))"
    using st by (simp add: respond_ok_iff r(2) status_setResponse)
  show "respond d' caller i m' now' ?db' =
           (Reply 400 (Err ''This request has already been answered.''), ?db')"
    using st r(1)
    by (simp add: respond_cases [of _ _ _ _ _ ?db'] r(2) status_setResponse skillProvider_setResponse)
qed

lemma interleave_in_turn:
  "interleave a b [First, First, Second, Second] (NotStarted, NotStarted, db) =
     (Finished (fst (serve a db)), Finished (fst (serve b (snd (serve a db)))),
      snd (serve b (snd (serve a db))))"
proof -
  obtain pa da where 1: "respondStep a NotStarted db = (pa, da)" by (cases "respondStep a NotStarted db")
  from respondStep_sequential [of a db] 1
  have 2: "respondStep a pa da = (Finished (fst (serve a db)), snd (serve a db))"
    by (simp add: serve_def)
  obtain pb dd where 3: "respondStep b NotStarted (snd (serve a db)) = (pb, dd)"
    by (cases "respondStep b NotStarted (snd (serve a db))")
  from respondStep_sequential [of b "snd (serve a db)"] 3
  have 4: "respondStep b pb dd =
      (Finished (fst (serve b (snd (serve a db)))), snd (serve b (snd (serve a db))))"
    by (simp add: serve_def)
  show ?thesis by (simp add: 1 2 3 4 del: respondStep.simps)
qed

text \<open>
  C9, as the code has it. Two respond calls on one request that are served in turn, the
  second after the first has finished, are the two handlers run one after the other, and
  at most one of them succeeds; when the first succeeds and the second comes from the same
  caller, the second sees the new status, gets "This request has already been answered."
  and changes nothing.
\<close>

theorem respond_in_turn_at_most_one:
  assumes "callRequestId a = callRequestId b"
  shows "interleave a b [First, First, Second, Second] (NotStarted, NotStarted, db) =
           (Finished (fst (serve a db)), Finished (fst (serve b (snd (serve a db)))),
            snd (serve b (snd (serve a db)))) \<and>
         \<not> (ok (fst (serve a db)) \<and> ok (fst (serve b (snd (serve a db))))) \<and>
         (ok (fst (serve a db)) \<and> callCaller b = callCaller a \<longrightarrow>
            serve b (snd (serve a db)) =
              (Reply 400 (Err ''This request has already been answered.''), snd (serve a db)))"
proof (intro conjI impI)
  show "interleave a b [First, First, Second, Second] (NotStarted, NotStarted, db) =
           (Finished (fst (serve a db)), Finished (fst (serve b (snd (serve a db)))),
            snd (serve b (snd (serve a db))))"
    by (rule interleave_in_turn)
next
  show "\<not> (ok (fst (serve a db)) \<and> ok (fst (serve b (snd (serve a db)))))"
  proof
    assume h: "ok (fst (serve a db)) \<and> ok (fst (serve b (snd (serve a db))))"
    then have "ok (fst (respond (callDecision a) (callCaller a) (callRequestId b) (callMessage a) (callTime a) db))"
      using assms by (simp add: serve_def)
    from respond_settled(1) [OF this, of "callDecision b" "callCaller b" "callMessage b" "callTime b"]
    show False using h assms by (simp add: serve_def)
  qed
next
  assume h: "ok (fst (serve a db)) \<and> callCaller b = callCaller a"
  then have "ok (fst (respond (callDecision a) (callCaller b) (callRequestId b) (callMessage a) (callTime a) db))"
    using assms by (simp add: serve_def)
  from respond_settled(2) [OF this, of "callDecision b" "callMessage b" "callTime b"]
  show "serve b (snd (serve a db)) =
          (Reply 400 (Err ''This request has already been answered.''), snd (serve a db))"
    using h assms by (simp add: serve_def)
qed

theorem respond_in_turn_at_most_one_witness:
  "\<exists>ra db'.
     interleave
       \<lparr>callCaller = 1, callDecision = Accept, callRequestId = 100, callMessage = None, callTime = 50\<rparr>
       \<lparr>callCaller = 1, callDecision = Decline, callRequestId = 100, callMessage = None, callTime = 51\<rparr>
       [First, First, Second, Second] (NotStarted, NotStarted, demoDB)
       = (Finished ra, Finished (Reply 400 (Err ''This request has already been answered.'')), db') \<and>
     ok ra \<and> statusOf 100 db' = Some Accepted"
proof -
  let ?a = "\<lparr>callCaller = 1, callDecision = Accept, callRequestId = 100, callMessage = None, callTime = 50\<rparr>"
  let ?b = "\<lparr>callCaller = 1, callDecision = Decline, callRequestId = 100, callMessage = None, callTime = 51\<rparr>"
  have i: "callRequestId ?a = callRequestId ?b" by simp
  have k: "ok (fst (serve ?a demoDB))"
    by (simp add: serve_def respond_ok_iff demo_defs)
  have s: "statusOf 100 (snd (serve ?a demoDB)) = Some Accepted"
    by (simp add: serve_def respond_cases statusOf_def findById_update_same oid_setResponse
        status_setResponse decided_def demo_defs)
  note t = respond_in_turn_at_most_one [OF i, of demoDB]
  from t k have e: "serve ?b (snd (serve ?a demoDB)) =
      (Reply 400 (Err ''This request has already been answered.''), snd (serve ?a demoDB))"
    by (simp del: interleave.simps respondStep.simps)
  from t have "interleave ?a ?b [First, First, Second, Second] (NotStarted, NotStarted, demoDB) =
      (Finished (fst (serve ?a demoDB)), Finished (fst (serve ?b (snd (serve ?a demoDB)))),
       snd (serve ?b (snd (serve ?a demoDB))))"
    by (rule conjunct1)
  then have "interleave ?a ?b [First, First, Second, Second] (NotStarted, NotStarted, demoDB) =
      (Finished (fst (serve ?a demoDB)),
       Finished (Reply 400 (Err ''This request has already been answered.'')),
       snd (serve ?a demoDB))"
    by (simp only: e fst_conv snd_conv)
  with k s show ?thesis by blast
qed

text \<open>
  The claim fails when the two calls overlap. On the pending request 100, Alice's accept
  and her decline are both in flight and the store serves the two \<open>findById\<close> calls
  before the two \<open>findByIdAndUpdate\<close> calls: the accept is answered with the accepted
  request, the decline with the declined request, and the request is stored as declined.
\<close>

theorem respond_overlap_counterexample:
  "\<exists>ra rb db'.
     interleave
       \<lparr>callCaller = 1, callDecision = Accept, callRequestId = 100, callMessage = None, callTime = 50\<rparr>
       \<lparr>callCaller = 1, callDecision = Decline, callRequestId = 100, callMessage = None, callTime = 51\<rparr>
       [First, Second, First, Second] (NotStarted, NotStarted, demoDB)
       = (Finished ra, Finished rb, db') \<and>
     ok ra \<and> ok rb \<and> repliedStatus ra = Some Accepted \<and> repliedStatus rb = Some Declined \<and>
     statusOf 100 db' = Some Declined"
  by (simp add: acceptGuards_def declineGuards_def acceptUpdate_def declineUpdate_def Let_def
      resolved_def ok_Reply repliedStatus_def statusOf_def setResponse_def populate_def demo_defs)

end
